theory Spec2Isabelle
  imports Main "HOL-Library.AList" "HOL-Library.Char_ord" "HOL-Library.List_Lexorder"
begin

unbundle bit_operations_syntax

section \<open>Python primitives used by voting_system.py\<close>

text \<open>
  A Python string that the user supplies (an id, a name, a value of a payload) is the list of its
  code points, \<open>pystr\<close>.  Text that the program writes itself (literals, dictionary keys,
  decimal numbers, JSON text, digests) is a \<open>string\<close>, a \<open>char\<close> standing for a code point in
  the range 0..255; \<open>ustr\<close> reads such a text as a Python string.  Printing is outside the
  model: a message of the program is represented by the result it comes with.
  Python integers are \<open>int\<close>.  A Python float (every timestamp of the program is the
  result of \<open>time.time()\<close>) is an opaque value of a type parameter \<open>'t\<close>: the program never
  computes with a timestamp, it only stores it and renders it as text.

  Two library functions stay parameters, collected in an environment:
  \<^item> \<open>sha256_hexdigest\<close> stands for \<open>lambda s: hashlib.sha256(s.encode()).hexdigest()\<close>;
  \<^item> \<open>float_str\<close> stands for \<open>str\<close> on floats, which is also what an f-string and
    \<open>json.dumps\<close> write for a finite float.
\<close>

record 't env =
  sha256_hexdigest :: "string \<Rightarrow> string"
  float_str :: "'t \<Rightarrow> string"

type_synonym pystr = "int list"

definition ustr :: "string \<Rightarrow> pystr" where
  "ustr s = map of_char s"

text \<open>
  \<open>str.isspace\<close>, by the code points that CPython's Unicode database lists as whitespace, and
  \<open>str.strip()\<close>.
\<close>

definition isspace :: "int \<Rightarrow> bool" where
  "isspace c =
     (c \<in> set [0x09, 0x0A, 0x0B, 0x0C, 0x0D, 0x1C, 0x1D, 0x1E, 0x1F, 0x20, 0x85, 0xA0, 0x1680,
                0x2000, 0x2001, 0x2002, 0x2003, 0x2004, 0x2005, 0x2006, 0x2007, 0x2008, 0x2009,
                0x200A, 0x2028, 0x2029, 0x202F, 0x205F, 0x3000])"

definition strip :: "pystr \<Rightarrow> pystr" where
  "strip s = rev (dropWhile isspace (rev (dropWhile isspace s)))"

text \<open>\<open>s * n\<close> on a string (empty for \<open>n \<le> 0\<close>) and \<open>s.startswith(p)\<close>.\<close>

definition str_mul :: "string \<Rightarrow> int \<Rightarrow> string" where
  "str_mul s n = concat (replicate (nat n) s)"

definition startswith :: "string \<Rightarrow> string \<Rightarrow> bool" where
  "startswith s p = (take (length p) s = p)"

text \<open>\<open>str\<close> on an integer: decimal digits, with a leading minus sign below zero.\<close>

definition digit_char :: "nat \<Rightarrow> char" where
  "digit_char d = ''0123456789'' ! d"

function str_nat :: "nat \<Rightarrow> string" where
  "str_nat n = (if n < 10 then [digit_char n] else str_nat (n div 10) @ [digit_char (n mod 10)])"
  by pat_completeness auto
termination
  by (relation "measure (\<lambda>n. n)") auto

declare str_nat.simps [simp del]

definition str_int :: "int \<Rightarrow> string" where
  "str_int i = (if i < 0 then CHR ''-'' # str_nat (nat (- i)) else str_nat (nat i))"

text \<open>\<open>sep.join(items)\<close>.\<close>

fun join :: "string \<Rightarrow> string list \<Rightarrow> string" where
  "join sep [] = []"
| "join sep [x] = x"
| "join sep (x # y # ys) = x @ sep @ join sep (y # ys)"

subsection \<open>json.dumps, as far as the program uses it\<close>

text \<open>
  The string encoder with \<open>ensure_ascii\<close> (the default): a backslash, a double quote and every
  character outside \<open>' '..'~'\<close> is escaped; backspace, form feed, newline, carriage return and
  tab have short escapes, the other code points below \<open>0x10000\<close> are written \<open>\uXXXX\<close> with
  four lower-case hex digits, and a code point from \<open>0x10000\<close> on is written as the two escapes
  of its surrogate pair.  \<open>CHR 0x22\<close> is the double quote and \<open>CHR 0x5C\<close> the backslash.
\<close>

definition hex_digit :: "int \<Rightarrow> char" where
  "hex_digit d = ''0123456789abcdef'' ! nat d"

definition hex4 :: "int \<Rightarrow> string" where
  "hex4 n = [hex_digit (n div 4096 mod 16), hex_digit (n div 256 mod 16),
             hex_digit (n div 16 mod 16), hex_digit (n mod 16)]"

definition escape_char :: "int \<Rightarrow> string" where
  "escape_char n =
     (if n = 0x5C then [CHR 0x5C, CHR 0x5C]
      else if n = 0x22 then [CHR 0x5C, CHR 0x22]
      else if n = 0x08 then [CHR 0x5C, CHR ''b'']
      else if n = 0x0C then [CHR 0x5C, CHR ''f'']
      else if n = 0x0A then [CHR 0x5C, CHR ''n'']
      else if n = 0x0D then [CHR 0x5C, CHR ''r'']
      else if n = 0x09 then [CHR 0x5C, CHR ''t'']
      else if n < 32 \<or> 126 < n then
        (if n < 0x10000 then CHR 0x5C # CHR ''u'' # hex4 n
         else
           (let v = n - 0x10000;
                s1 = 0xD800 OR (drop_bit 10 v AND 0x3FF);
                s2 = 0xDC00 OR (v AND 0x3FF)
            in CHR 0x5C # CHR ''u'' # hex4 s1 @ CHR 0x5C # CHR ''u'' # hex4 s2))
      else [char_of n])"

definition json_str :: "pystr \<Rightarrow> string" where
  "json_str s = CHR 0x22 # concat (map escape_char s) @ [CHR 0x22]"

text \<open>
  The values a payload holds (\<open>Dict[str, Any]\<close> in the source; the program stores only
  strings and booleans there).
\<close>

datatype pyval = PyStr pystr | PyBool bool

fun dumps_val :: "pyval \<Rightarrow> string" where
  "dumps_val (PyStr s) = json_str s"
| "dumps_val (PyBool b) = (if b then ''true'' else ''false'')"

text \<open>
  A dict is an association list in insertion order; \<open>dumps_dict\<close> takes the items with their
  values already written, and writes them with \<open>sort_keys=True\<close> and the default separators.
\<close>

definition dumps_dict :: "(string \<times> string) list \<Rightarrow> string" where
  "dumps_dict items =
     ''{'' @ join '', '' (map (\<lambda>(k, v). json_str (ustr k) @ '': '' @ v) (sort_key fst items))
       @ ''}''"

definition dumps_list :: "string list \<Rightarrow> string" where
  "dumps_list items = ''['' @ join '', '' items @ '']''"

section \<open>Data models\<close>

record Voter =
  voter_id :: pystr
  name :: pystr
  has_voted :: bool

record Candidate =
  candidate_id :: pystr
  name :: pystr

text \<open>The transaction's own time stamp is the field \<open>timestamp\<close> of the source.\<close>

record 't Transaction =
  tx_type :: string
  payload :: "(string \<times> pyval) list"
  tx_timestamp :: 't

text \<open>\<open>dataclasses.asdict\<close> on the three dataclasses, fields in declaration order.\<close>

definition asdict_Voter :: "Voter \<Rightarrow> (string \<times> pyval) list" where
  "asdict_Voter v =
     [(''voter_id'', PyStr (voter_id v)), (''name'', PyStr (Voter.name v)),
      (''has_voted'', PyBool (has_voted v))]"

definition asdict_Candidate :: "Candidate \<Rightarrow> (string \<times> pyval) list" where
  "asdict_Candidate c =
     [(''candidate_id'', PyStr (candidate_id c)), (''name'', PyStr (Candidate.name c))]"

text \<open>
  \<open>json.dumps(asdict(tx), sort_keys=True)\<close>: the three fields of the transaction, the payload
  a nested dict.
\<close>

definition dumps_Transaction :: "'t env \<Rightarrow> 't Transaction \<Rightarrow> string" where
  "dumps_Transaction E tx =
     dumps_dict
       [(''tx_type'', json_str (ustr (tx_type tx))),
        (''payload'', dumps_dict (map (\<lambda>(k, v). (k, dumps_val v)) (payload tx))),
        (''timestamp'', float_str E (tx_timestamp tx))]"

text \<open>The factory methods; the argument \<open>now\<close> is the value of \<open>time.time()\<close>.\<close>

definition Transaction_add_voter :: "'t \<Rightarrow> Voter \<Rightarrow> 't Transaction" where
  "Transaction_add_voter now voter =
     \<lparr>tx_type = ''ADD_VOTER'', payload = asdict_Voter voter, tx_timestamp = now\<rparr>"

definition Transaction_add_candidate :: "'t \<Rightarrow> Candidate \<Rightarrow> 't Transaction" where
  "Transaction_add_candidate now candidate =
     \<lparr>tx_type = ''ADD_CANDIDATE'', payload = asdict_Candidate candidate, tx_timestamp = now\<rparr>"

definition Transaction_cast_vote :: "'t \<Rightarrow> pystr \<Rightarrow> pystr \<Rightarrow> 't Transaction" where
  "Transaction_cast_vote now vid cid =
     \<lparr>tx_type = ''CAST_VOTE'',
      payload = [(''voter_id'', PyStr vid), (''candidate_id'', PyStr cid)],
      tx_timestamp = now\<rparr>"

section \<open>Blocks and mining\<close>

record 't Block =
  index :: int
  timestamp :: 't
  transactions :: "'t Transaction list"
  previous_hash :: string
  nonce :: int
  difficulty :: int
  hash :: string

definition tx_str :: "'t env \<Rightarrow> 't Transaction list \<Rightarrow> string" where
  "tx_str E txs = dumps_list (map (dumps_Transaction E) txs)"

definition block_string :: "'t env \<Rightarrow> 't Block \<Rightarrow> string" where
  "block_string E b =
     str_int (index b) @ float_str E (timestamp b) @ tx_str E (transactions b)
       @ previous_hash b @ str_int (nonce b) @ str_int (difficulty b)"

definition calculate_hash :: "'t env \<Rightarrow> 't Block \<Rightarrow> string" where
  "calculate_hash E b = sha256_hexdigest E (block_string E b)"

text \<open>
  The loop of \<open>mine_block\<close>: \<open>h\<close> is the hash of \<open>b\<close>; the loop may run forever, which is the
  value \<open>None\<close>.  It returns the block with the nonce it stopped at, and the hash.
\<close>

partial_function (option) mine_loop ::
  "'t env \<Rightarrow> string \<Rightarrow> 't Block \<Rightarrow> string \<Rightarrow> ('t Block \<times> string) option" where
  "mine_loop E prefix b h =
     (if startswith h prefix then Some (b, h)
      else mine_loop E prefix (b\<lparr>nonce := nonce b + 1\<rparr>)
             (calculate_hash E (b\<lparr>nonce := nonce b + 1\<rparr>)))"

declare mine_loop.simps [code]

definition mine_block :: "'t env \<Rightarrow> 't Block \<Rightarrow> ('t Block \<times> string) option" where
  "mine_block E b = mine_loop E (str_mul ''0'' (difficulty b)) b (calculate_hash E b)"

text \<open>
  The block under construction: the fields \<open>Block.__init__\<close> has set when it calls
  \<open>mine_block\<close>, with the nonce as a parameter.  The attribute \<open>hash\<close> does not exist yet in
  the source; the record holds the empty string there, and \<open>calculate_hash\<close> does not read it.
\<close>

definition unsealed ::
  "'t \<Rightarrow> int \<Rightarrow> 't Transaction list \<Rightarrow> string \<Rightarrow> int \<Rightarrow> int \<Rightarrow> 't Block" where
  "unsealed now idx txs prev d n =
     \<lparr>index = idx, timestamp = now, transactions = txs, previous_hash = prev,
      nonce = n, difficulty = d, hash = []\<rparr>"

text \<open>\<open>Block.__init__\<close>; \<open>now\<close> is the value of its one call of \<open>time.time()\<close>.\<close>

definition Block_init ::
  "'t env \<Rightarrow> 't \<Rightarrow> int \<Rightarrow> 't Transaction list \<Rightarrow> string \<Rightarrow> int \<Rightarrow> 't Block option" where
  "Block_init E now idx txs prev d =
     (case mine_block E (unsealed now idx txs prev d 0) of
        None \<Rightarrow> None
      | Some (b, h) \<Rightarrow> Some (b\<lparr>hash := h\<rparr>))"

section \<open>The ledger\<close>

record 't Blockchain =
  difficulty :: int
  chain :: "'t Block list"
  voters :: "(pystr \<times> Voter) list"
  candidates :: "(pystr \<times> Candidate) list"

text \<open>
  What a call does: it returns \<open>True\<close> (\<open>Success\<close>), it prints one of its messages and returns
  \<open>False\<close> (\<open>Failure\<close> with the error the message stands for), or an exception leaves it
  (\<open>Raised\<close>).  A dict is an association list in insertion order: \<open>k in d\<close> is
  \<open>map_of d k \<noteq> None\<close> and \<open>d[k] = v\<close> is \<open>AList.update k v d\<close>.
\<close>

datatype error =
  EmptyField | DuplicateVoterId | DuplicateCandidateId
  | UnknownVoter | UnknownCandidate | AlreadyVoted

datatype pyexc = IndexError

datatype result = Success | Failure error | Raised pyexc

definition genesis_tx :: "'t \<Rightarrow> 't Transaction" where
  "genesis_tx now =
     \<lparr>tx_type = ''GENESIS'', payload = [(''message'', PyStr (ustr ''Voting chain initiated''))],
      tx_timestamp = now\<rparr>"

definition create_genesis_block :: "'t env \<Rightarrow> 't \<Rightarrow> 't \<Rightarrow> int \<Rightarrow> 't Block option" where
  "create_genesis_block E t_tx t_blk d = Block_init E t_blk 0 [genesis_tx t_tx] (str_mul ''0'' 64) d"

text \<open>\<open>Blockchain.__init__\<close>; \<open>None\<close> when mining the genesis block never ends.\<close>

definition Blockchain_init :: "'t env \<Rightarrow> 't \<Rightarrow> 't \<Rightarrow> int \<Rightarrow> 't Blockchain option" where
  "Blockchain_init E t_tx t_blk d =
     (case create_genesis_block E t_tx t_blk d of
        None \<Rightarrow> None
      | Some g \<Rightarrow> Some \<lparr>Blockchain.difficulty = d, chain = [g], voters = [], candidates = []\<rparr>)"

text \<open>\<open>self.chain[-1]\<close> raises \<open>IndexError\<close> on an empty list.\<close>

definition get_latest_block :: "'t Blockchain \<Rightarrow> pyexc + 't Block" where
  "get_latest_block bc = (if chain bc = [] then Inl IndexError else Inr (last (chain bc)))"

text \<open>
  \<open>_add_block\<close>, with the result of the calling method: \<open>Success\<close> and the chain with the new
  block, or \<open>IndexError\<close> with the ledger as it is; \<open>None\<close> when mining never ends.
\<close>

definition add_block ::
  "'t env \<Rightarrow> 't \<Rightarrow> 't Transaction list \<Rightarrow> 't Blockchain \<Rightarrow> (result \<times> 't Blockchain) option" where
  "add_block E t_blk txs bc =
     (case get_latest_block bc of
        Inl e \<Rightarrow> Some (Raised e, bc)
      | Inr latest \<Rightarrow>
          (case Block_init E t_blk (int (length (chain bc))) txs (hash latest)
                  (Blockchain.difficulty bc) of
             None \<Rightarrow> None
           | Some b \<Rightarrow> Some (Success, bc\<lparr>chain := chain bc @ [b]\<rparr>)))"

text \<open>
  The three mutating methods.  \<open>t_tx\<close> and \<open>t_blk\<close> are the values of the two calls of
  \<open>time.time()\<close>, in the transaction factory and in \<open>Block.__init__\<close>.
\<close>

definition add_voter ::
  "'t env \<Rightarrow> 't \<Rightarrow> 't \<Rightarrow> 't Blockchain \<Rightarrow> pystr \<Rightarrow> pystr \<Rightarrow> (result \<times> 't Blockchain) option" where
  "add_voter E t_tx t_blk bc voter_id_arg name_arg =
     (let vid = strip voter_id_arg; nm = strip name_arg in
      if vid = [] \<or> nm = [] then Some (Failure EmptyField, bc)
      else if map_of (voters bc) vid \<noteq> None then Some (Failure DuplicateVoterId, bc)
      else
        (let voter = \<lparr>voter_id = vid, Voter.name = nm, has_voted = False\<rparr> in
         add_block E t_blk [Transaction_add_voter t_tx voter]
           (bc\<lparr>voters := AList.update vid voter (voters bc)\<rparr>)))"

definition add_candidate ::
  "'t env \<Rightarrow> 't \<Rightarrow> 't \<Rightarrow> 't Blockchain \<Rightarrow> pystr \<Rightarrow> pystr \<Rightarrow> (result \<times> 't Blockchain) option" where
  "add_candidate E t_tx t_blk bc candidate_id_arg name_arg =
     (let cid = strip candidate_id_arg; nm = strip name_arg in
      if cid = [] \<or> nm = [] then Some (Failure EmptyField, bc)
      else if map_of (candidates bc) cid \<noteq> None then Some (Failure DuplicateCandidateId, bc)
      else
        (let candidate = \<lparr>candidate_id = cid, Candidate.name = nm\<rparr> in
         add_block E t_blk [Transaction_add_candidate t_tx candidate]
           (bc\<lparr>candidates := AList.update cid candidate (candidates bc)\<rparr>)))"

definition cast_vote ::
  "'t env \<Rightarrow> 't \<Rightarrow> 't \<Rightarrow> 't Blockchain \<Rightarrow> pystr \<Rightarrow> pystr \<Rightarrow> (result \<times> 't Blockchain) option" where
  "cast_vote E t_tx t_blk bc voter_id_arg candidate_id_arg =
     (let vid = strip voter_id_arg; cid = strip candidate_id_arg in
      case map_of (voters bc) vid of
        None \<Rightarrow> Some (Failure UnknownVoter, bc)
      | Some voter \<Rightarrow>
          if map_of (candidates bc) cid = None then Some (Failure UnknownCandidate, bc)
          else if has_voted voter then Some (Failure AlreadyVoted, bc)
          else
            add_block E t_blk [Transaction_cast_vote t_tx vid cid]
              (bc\<lparr>voters := AList.update vid (voter\<lparr>has_voted := True\<rparr>) (voters bc)\<rparr>))"

subsection \<open>Chain validation\<close>

text \<open>
  \<open>Invalid i r\<close> stands for the message about index \<open>i\<close> and the result \<open>False\<close>, \<open>Valid\<close> for
  the result \<open>True\<close>.  \<open>validate_loop\<close> is the \<open>for\<close> loop from \<open>i\<close> on; the method starts it
  at 1.
\<close>

datatype reason = HashMismatch | ProofOfWorkNotMet | BrokenLink

datatype verdict = Valid | Invalid nat reason

function validate_loop :: "'t env \<Rightarrow> 't Blockchain \<Rightarrow> nat \<Rightarrow> verdict" where
  "validate_loop E bc i =
     (if i < length (chain bc) then
        (let cur = chain bc ! i; prev = chain bc ! (i - 1) in
         if hash cur \<noteq> calculate_hash E cur then Invalid i HashMismatch
         else if \<not> startswith (hash cur) (str_mul ''0'' (Blockchain.difficulty bc))
           then Invalid i ProofOfWorkNotMet
         else if previous_hash cur \<noteq> hash prev then Invalid i BrokenLink
         else validate_loop E bc (i + 1))
      else Valid)"
  by pat_completeness auto
termination
  by (relation "measure (\<lambda>(E, bc, i). length (chain bc) - i)") auto

declare validate_loop.simps [simp del]

definition validate_chain :: "'t env \<Rightarrow> 't Blockchain \<Rightarrow> verdict" where
  "validate_chain E bc = validate_loop E bc 1"

subsection \<open>Sequences of calls\<close>

text \<open>
  The calls the menu loop of \<open>main\<close> makes on the ledger, each with the two clock values it
  reads.  \<open>run\<close> gives the ledger after a sequence of calls that all returned; it is \<open>None\<close>
  when a call never returns or leaves by an exception, which ends the program.
\<close>

datatype 't call =
  AddVoter 't 't pystr pystr
  | AddCandidate 't 't pystr pystr
  | CastVote 't 't pystr pystr

fun do_call :: "'t env \<Rightarrow> 't call \<Rightarrow> 't Blockchain \<Rightarrow> (result \<times> 't Blockchain) option" where
  "do_call E (AddVoter t_tx t_blk i n) bc = add_voter E t_tx t_blk bc i n"
| "do_call E (AddCandidate t_tx t_blk i n) bc = add_candidate E t_tx t_blk bc i n"
| "do_call E (CastVote t_tx t_blk v c) bc = cast_vote E t_tx t_blk bc v c"

fun run :: "'t env \<Rightarrow> 't call list \<Rightarrow> 't Blockchain \<Rightarrow> 't Blockchain option" where
  "run E [] bc = Some bc"
| "run E (c # cs) bc =
     (case do_call E c bc of
        None \<Rightarrow> None
      | Some (Raised e, bc') \<Rightarrow> None
      | Some (r, bc') \<Rightarrow> run E cs bc')"

section \<open>Specification vocabulary\<close>

text \<open>
  The proof-of-work target of a block: its hash starts with \<open>difficulty\<close> zero characters.
\<close>

definition meets_target :: "'t env \<Rightarrow> 't Block \<Rightarrow> bool" where
  "meets_target E b = startswith (calculate_hash E b) (str_mul ''0'' (Block.difficulty b))"

text \<open>
  The three checks \<open>validate_chain\<close> makes on one block, in its order, and the chains on
  which every block after the first passes them.
\<close>

definition check_block :: "'t env \<Rightarrow> int \<Rightarrow> 't Block \<Rightarrow> 't Block \<Rightarrow> reason option" where
  "check_block E d prev cur =
     (if hash cur \<noteq> calculate_hash E cur then Some HashMismatch
      else if \<not> startswith (hash cur) (str_mul ''0'' d) then Some ProofOfWorkNotMet
      else if previous_hash cur \<noteq> hash prev then Some BrokenLink
      else None)"

definition chain_ok :: "'t env \<Rightarrow> 't Blockchain \<Rightarrow> bool" where
  "chain_ok E bc \<longleftrightarrow>
     chain bc \<noteq> [] \<and>
     (\<forall>k. 0 < k \<and> k < length (chain bc) \<longrightarrow>
        check_block E (Blockchain.difficulty bc) (chain bc ! (k - 1)) (chain bc ! k) = None)"

section \<open>A concrete run\<close>

text \<open>
  An environment for evaluating the model: time stamps are natural numbers written with a
  fractional digit, and a stand-in digest that starts with zeros exactly when the last digit of
  the nonce is 3 (for a one-digit difficulty) and then gives the length of its input.  With it,
  mining at difficulty 3 tries the nonces 0, 1 and 2 in vain and stops at 3.
\<close>

definition demo_digest :: "string \<Rightarrow> string" where
  "demo_digest s =
     (if take 1 (drop (length s - 2) s) = ''3'' then ''000'' else ''fff'') @ str_nat (length s)"

definition demo_env :: "nat env" where
  "demo_env = \<lparr>sha256_hexdigest = demo_digest, float_str = (\<lambda>t. str_nat t @ ''.5'')\<rparr>"

definition demo_genesis :: "nat Block" where
  "demo_genesis =
     \<lparr>index = 0, timestamp = 101,
      transactions =
        [\<lparr>tx_type = ''GENESIS'', payload = [(''message'', PyStr (ustr ''Voting chain initiated''))],
          tx_timestamp = 100\<rparr>],
      previous_hash = ''0000000000000000000000000000000000000000000000000000000000000000'',
      nonce = 3, difficulty = 3, hash = ''000166''\<rparr>"

definition demo_block1 :: "nat Block" where
  "demo_block1 =
     \<lparr>index = 1, timestamp = 103,
      transactions =
        [\<lparr>tx_type = ''ADD_CANDIDATE'',
          payload = [(''candidate_id'', PyStr (ustr ''C1'')), (''name'', PyStr (ustr ''Rose''))],
          tx_timestamp = 102\<rparr>],
      previous_hash = ''000166'', nonce = 3, difficulty = 3, hash = ''000115''\<rparr>"

definition demo_block2 :: "nat Block" where
  "demo_block2 =
     \<lparr>index = 2, timestamp = 105,
      transactions =
        [\<lparr>tx_type = ''ADD_VOTER'',
          payload = [(''voter_id'', PyStr (ustr ''V1'')), (''name'', PyStr (ustr ''Alice'')),
                     (''has_voted'', PyBool False)],
          tx_timestamp = 104\<rparr>],
      previous_hash = ''000115'', nonce = 3, difficulty = 3, hash = ''000128''\<rparr>"

definition demo_block3 :: "nat Block" where
  "demo_block3 =
     \<lparr>index = 3, timestamp = 107,
      transactions =
        [\<lparr>tx_type = ''CAST_VOTE'',
          payload = [(''voter_id'', PyStr (ustr ''V1'')), (''candidate_id'', PyStr (ustr ''C1''))],
          tx_timestamp = 106\<rparr>],
      previous_hash = ''000128'', nonce = 3, difficulty = 3, hash = ''000113''\<rparr>"

definition demo_fresh :: "nat Blockchain" where
  "demo_fresh =
     \<lparr>Blockchain.difficulty = 3, chain = [demo_genesis], voters = [], candidates = []\<rparr>"

definition demo_registered :: "nat Blockchain" where
  "demo_registered =
     \<lparr>Blockchain.difficulty = 3, chain = [demo_genesis, demo_block1, demo_block2],
      voters = [(ustr ''V1'', \<lparr>voter_id = ustr ''V1'', Voter.name = ustr ''Alice'', has_voted = False\<rparr>)],
      candidates = [(ustr ''C1'', \<lparr>candidate_id = ustr ''C1'', Candidate.name = ustr ''Rose''\<rparr>)]\<rparr>"

definition demo_voted :: "nat Blockchain" where
  "demo_voted =
     \<lparr>Blockchain.difficulty = 3,
      chain = [demo_genesis, demo_block1, demo_block2, demo_block3],
      voters = [(ustr ''V1'', \<lparr>voter_id = ustr ''V1'', Voter.name = ustr ''Alice'', has_voted = True\<rparr>)],
      candidates = [(ustr ''C1'', \<lparr>candidate_id = ustr ''C1'', Candidate.name = ustr ''Rose''\<rparr>)]\<rparr>"

definition demo_calls :: "nat call list" where
  "demo_calls =
     [AddCandidate 102 103 (ustr ''C1'') (ustr ''Rose''), AddVoter 104 105 (ustr '' V1 '') (ustr '' Alice ''),
      CastVote 106 107 (ustr ''V1'') (ustr ''C1'')]"

definition demo_with_candidate :: "nat Blockchain" where
  "demo_with_candidate =
     \<lparr>Blockchain.difficulty = 3, chain = [demo_genesis, demo_block1], voters = [],
      candidates = [(ustr ''C1'', \<lparr>candidate_id = ustr ''C1'', Candidate.name = ustr ''Rose''\<rparr>)]\<rparr>"

text \<open>A genesis block with every field but the stored hash changed.\<close>

definition demo_genesis_forged :: "nat Block" where
  "demo_genesis_forged =
     \<lparr>index = 7, timestamp = 999, transactions = [], previous_hash = ''ffff'',
      nonce = 42, difficulty = 0, hash = ''000166''\<rparr>"

text \<open>
  The replay of section 8 of the specification, which the source does not contain: the
  transactions of the chain, in chain order from the genesis block on, applied to empty tables.
  An \<open>ADD_VOTER\<close> or \<open>ADD_CANDIDATE\<close> transaction stores the record its payload holds under
  the id its payload holds, a \<open>CAST_VOTE\<close> transaction sets the flag of the voter its payload
  names, and any other transaction changes nothing.  \<open>replay_ok\<close> says that the replay gives
  the tables of the ledger.
\<close>

definition spec_replay_tx ::
  "'t Transaction \<Rightarrow> (pystr \<times> Voter) list \<times> (pystr \<times> Candidate) list
     \<Rightarrow> (pystr \<times> Voter) list \<times> (pystr \<times> Candidate) list" where
  "spec_replay_tx tx tabs =
     (case tabs of (vs, cs) \<Rightarrow>
        if tx_type tx = ''ADD_VOTER'' then
          (case (map_of (payload tx) ''voter_id'', map_of (payload tx) ''name'',
                 map_of (payload tx) ''has_voted'') of
             (Some (PyStr i), Some (PyStr n), Some (PyBool h)) \<Rightarrow>
               (AList.update i \<lparr>voter_id = i, Voter.name = n, has_voted = h\<rparr> vs, cs)
           | _ \<Rightarrow> (vs, cs))
        else if tx_type tx = ''ADD_CANDIDATE'' then
          (case (map_of (payload tx) ''candidate_id'', map_of (payload tx) ''name'') of
             (Some (PyStr i), Some (PyStr n)) \<Rightarrow>
               (vs, AList.update i \<lparr>candidate_id = i, Candidate.name = n\<rparr> cs)
           | _ \<Rightarrow> (vs, cs))
        else if tx_type tx = ''CAST_VOTE'' then
          (case map_of (payload tx) ''voter_id'' of
             Some (PyStr i) \<Rightarrow>
               (case map_of vs i of
                  Some v \<Rightarrow> (AList.update i (v\<lparr>has_voted := True\<rparr>) vs, cs)
                | None \<Rightarrow> (vs, cs))
           | _ \<Rightarrow> (vs, cs))
        else (vs, cs))"

definition spec_replay ::
  "'t Block list \<Rightarrow> (pystr \<times> Voter) list \<times> (pystr \<times> Candidate) list" where
  "spec_replay bs = foldl (\<lambda>tabs tx. spec_replay_tx tx tabs) ([], []) (concat (map transactions bs))"

definition replay_ok :: "'t Blockchain \<Rightarrow> bool" where
  "replay_ok bc \<longleftrightarrow> chain bc \<noteq> [] \<and> spec_replay (chain bc) = (voters bc, candidates bc)"

section \<open>Evaluation of the concrete run\<close>

lemma ustr_eq_iff [simp]: "ustr s = ustr t \<longleftrightarrow> s = t"
  by (simp add: ustr_def inj_map_eq_map inj_on_def)

lemma ustr_eq_Nil_iff [simp]: "ustr s = [] \<longleftrightarrow> s = []" "[] = ustr s \<longleftrightarrow> s = []"
  by (auto simp: ustr_def)

lemma demo_genesis_mined:
  "Block_init demo_env 101 0 [genesis_tx 100] (str_mul ''0'' 64) 3 = Some demo_genesis"
  by code_simp

lemma demo_init: "Blockchain_init demo_env 100 101 3 = Some demo_fresh"
  by code_simp

lemma demo_run_registered: "run demo_env (take 2 demo_calls) demo_fresh = Some demo_registered"
  by code_simp

lemma demo_run: "run demo_env demo_calls demo_fresh = Some demo_voted"
  by code_simp

section \<open>Mining\<close>

lemma str_mul_zero: "str_mul ''0'' d = replicate (nat d) CHR ''0''"
  unfolding str_mul_def by (induction "nat d") simp_all

lemma calculate_hash_hash_update [simp]:
  "calculate_hash E (b\<lparr>hash := h\<rparr>) = calculate_hash E b"
  by (simp add: calculate_hash_def block_string_def)

text \<open>If the nonce \<open>k\<close> steps ahead is the first to meet the target, the loop stops there.\<close>

lemma mine_loop_found:
  assumes "startswith (calculate_hash E (b\<lparr>nonce := nonce b + int k\<rparr>)) p"
    and "\<And>j. j < k \<Longrightarrow> \<not> startswith (calculate_hash E (b\<lparr>nonce := nonce b + int j\<rparr>)) p"
  shows "mine_loop E p b (calculate_hash E b)
           = Some (b\<lparr>nonce := nonce b + int k\<rparr>, calculate_hash E (b\<lparr>nonce := nonce b + int k\<rparr>))"
  using assms
proof (induction k arbitrary: b)
  case 0
  then show ?case by (subst mine_loop.simps) simp
next
  case (Suc k)
  let ?b = "b\<lparr>nonce := nonce b + 1\<rparr>"
  have miss: "\<not> startswith (calculate_hash E b) p"
    using Suc.prems(2) [of 0] by simp
  have hit: "startswith (calculate_hash E (?b\<lparr>nonce := nonce ?b + int k\<rparr>)) p"
    using Suc.prems(1) by (simp add: add.assoc)
  have before: "\<not> startswith (calculate_hash E (?b\<lparr>nonce := nonce ?b + int j\<rparr>)) p"
    if "j < k" for j
    using Suc.prems(2) [of "Suc j"] that by (simp add: add.assoc)
  have "mine_loop E p b (calculate_hash E b) = mine_loop E p ?b (calculate_hash E ?b)"
    using miss by (subst mine_loop.simps) simp
  also have "\<dots> = Some (?b\<lparr>nonce := nonce ?b + int k\<rparr>,
                        calculate_hash E (?b\<lparr>nonce := nonce ?b + int k\<rparr>))"
    using Suc.IH [OF hit before] by simp
  finally show ?case by (simp add: add.assoc)
qed

text \<open>If the loop returns at all, some nonce ahead meets the target.\<close>

lemma mine_loop_returns:
  assumes "mine_loop E p b h = Some y"
  shows "h = calculate_hash E b \<longrightarrow>
           (\<exists>k. startswith (calculate_hash E (b\<lparr>nonce := nonce b + int k\<rparr>)) p)"
proof (rule mine_loop.raw_induct
    [where P = "\<lambda>E p b h y. h = calculate_hash E b \<longrightarrow>
                  (\<exists>k. startswith (calculate_hash E (b\<lparr>nonce := nonce b + int k\<rparr>)) p)",
     OF _ assms])
  fix ml :: "'a env \<Rightarrow> string \<Rightarrow> 'a Block \<Rightarrow> string \<Rightarrow> ('a Block \<times> string) option"
    and E p b h y
  assume IH: "\<And>E p b h y. ml E p b h = Some y \<Longrightarrow> h = calculate_hash E b \<longrightarrow>
                (\<exists>k. startswith (calculate_hash E (b\<lparr>nonce := nonce b + int k\<rparr>)) p)"
    and step: "(if startswith h p then Some (b, h)
                else ml E p (b\<lparr>nonce := nonce b + 1\<rparr>)
                       (calculate_hash E (b\<lparr>nonce := nonce b + 1\<rparr>))) = Some y"
  show "h = calculate_hash E b \<longrightarrow>
          (\<exists>k. startswith (calculate_hash E (b\<lparr>nonce := nonce b + int k\<rparr>)) p)"
  proof (cases "startswith h p")
    case True
    then have "h = calculate_hash E b \<longrightarrow>
                 startswith (calculate_hash E (b\<lparr>nonce := nonce b + int 0\<rparr>)) p"
      by auto
    then show ?thesis by blast
  next
    case False
    let ?b = "b\<lparr>nonce := nonce b + 1\<rparr>"
    from False step have "ml E p ?b (calculate_hash E ?b) = Some y"
      by simp
    from IH [OF this]
    obtain k where "startswith (calculate_hash E (?b\<lparr>nonce := nonce ?b + int k\<rparr>)) p"
      by blast
    then have "startswith (calculate_hash E (b\<lparr>nonce := nonce b + int (Suc k)\<rparr>)) p"
      by (simp add: ac_simps)
    then show ?thesis by blast
  qed
qed

lemma unsealed_simps [simp]:
  "(unsealed now idx txs prev d n)\<lparr>nonce := m\<rparr> = unsealed now idx txs prev d m"
  "nonce (unsealed now idx txs prev d n) = n"
  "Block.difficulty (unsealed now idx txs prev d n) = d"
  by (simp_all add: unsealed_def)

lemma Block_init_eq:
  "Block_init E now idx txs prev d =
     (if \<exists>n. meets_target E (unsealed now idx txs prev d (int n))
      then Some ((unsealed now idx txs prev d
                    (int (LEAST n. meets_target E (unsealed now idx txs prev d (int n)))))
                 \<lparr>hash := calculate_hash E (unsealed now idx txs prev d
                    (int (LEAST n. meets_target E (unsealed now idx txs prev d (int n)))))\<rparr>)
      else None)"
proof (cases "\<exists>n. meets_target E (unsealed now idx txs prev d (int n))")
  case True
  let ?P = "\<lambda>n. meets_target E (unsealed now idx txs prev d (int n))"
  let ?k = "LEAST n. ?P n"
  have hit: "?P ?k" using True by (rule LeastI_ex)
  have miss: "\<not> ?P j" if "j < ?k" for j using that by (rule not_less_Least)
  have "mine_block E (unsealed now idx txs prev d 0)
          = Some (unsealed now idx txs prev d (int ?k),
                  calculate_hash E (unsealed now idx txs prev d (int ?k)))"
    unfolding mine_block_def
    using mine_loop_found [of E "unsealed now idx txs prev d 0" ?k "str_mul ''0'' d"] hit miss
    by (simp add: meets_target_def)
  then show ?thesis using True by (simp add: Block_init_def)
next
  case False
  have "mine_block E (unsealed now idx txs prev d 0) = None"
  proof (rule ccontr)
    assume "mine_block E (unsealed now idx txs prev d 0) \<noteq> None"
    then obtain y where "mine_loop E (str_mul ''0'' d) (unsealed now idx txs prev d 0)
                           (calculate_hash E (unsealed now idx txs prev d 0)) = Some y"
      by (auto simp: mine_block_def)
    from mine_loop_returns [OF this] False show False
      by (simp add: meets_target_def)
  qed
  then show ?thesis using False by (simp add: Block_init_def)
qed

lemma Block_init_Some:
  assumes "Block_init E now idx txs prev d = Some b"
  shows "\<exists>n. meets_target E (unsealed now idx txs prev d (int n)) \<and>
             b = (unsealed now idx txs prev d (int n))
                   \<lparr>hash := calculate_hash E (unsealed now idx txs prev d (int n))\<rparr>"
proof -
  let ?P = "\<lambda>n. meets_target E (unsealed now idx txs prev d (int n))"
  from assms have ex: "\<exists>n. ?P n"
    by (auto simp: Block_init_eq split: if_splits)
  then have "?P (LEAST n. ?P n)" by (rule LeastI_ex)
  moreover from assms ex
  have "b = (unsealed now idx txs prev d (int (LEAST n. ?P n)))
              \<lparr>hash := calculate_hash E (unsealed now idx txs prev d (int (LEAST n. ?P n)))\<rparr>"
    by (simp add: Block_init_eq)
  ultimately show ?thesis by blast
qed

lemma Block_init_fields:
  assumes "Block_init E now idx txs prev d = Some b"
  shows "index b = idx" "timestamp b = now" "transactions b = txs" "previous_hash b = prev"
    "Block.difficulty b = d" "hash b = calculate_hash E b" "startswith (hash b) (str_mul ''0'' d)"
    "0 \<le> nonce b"
proof -
  from Block_init_Some [OF assms] obtain n where
    m: "meets_target E (unsealed now idx txs prev d (int n))" and
    b: "b = (unsealed now idx txs prev d (int n))
              \<lparr>hash := calculate_hash E (unsealed now idx txs prev d (int n))\<rparr>"
    by blast
  show "index b = idx" "timestamp b = now" "transactions b = txs" "previous_hash b = prev"
    "Block.difficulty b = d" "0 \<le> nonce b"
    by (simp_all add: b unsealed_def)
  show "hash b = calculate_hash E b" by (simp add: b)
  show "startswith (hash b) (str_mul ''0'' d)"
    using m by (simp add: b meets_target_def)
qed

text \<open>
  C1.  A block that \<open>Block.__init__\<close> returns stores the digest of the serialization of its own
  index, timestamp, transactions, previous hash, nonce and difficulty, and this hash starts with
  \<open>difficulty\<close> characters \<open>0\<close>.
\<close>

theorem mined_block_sealed:
  assumes "Block_init E now idx txs prev d = Some b"
  shows "hash b = sha256_hexdigest E (block_string E b) \<and>
         take (nat (Block.difficulty b)) (hash b) = replicate (nat (Block.difficulty b)) CHR ''0''"
  using Block_init_fields(5,6,7) [OF assms]
  by (simp add: calculate_hash_def block_string_def startswith_def str_mul_zero)

theorem mined_block_sealed_witness:
  "Block_init demo_env 101 0 [genesis_tx 100] (str_mul ''0'' 64) 3 = Some demo_genesis \<and>
   hash demo_genesis = sha256_hexdigest demo_env (block_string demo_env demo_genesis) \<and>
   take (nat (Block.difficulty demo_genesis)) (hash demo_genesis)
     = replicate (nat (Block.difficulty demo_genesis)) CHR ''0''"
  using mined_block_sealed [OF demo_genesis_mined] demo_genesis_mined by blast

text \<open>
  C8.  Mining is a function of the index, the transactions, the previous hash, the difficulty
  and the one time stamp read at construction: when some nonce meets the target, the block
  returned is the one under construction with the least such nonce (counted up from 0) and with
  the hash computed at that nonce; when no nonce meets the target, the search never returns.
\<close>

theorem mining_least_nonce:
  "Block_init E now idx txs prev d =
     (if \<exists>n. meets_target E (unsealed now idx txs prev d (int n))
      then Some ((unsealed now idx txs prev d
                    (int (LEAST n. meets_target E (unsealed now idx txs prev d (int n)))))
                 \<lparr>hash := calculate_hash E (unsealed now idx txs prev d
                    (int (LEAST n. meets_target E (unsealed now idx txs prev d (int n)))))\<rparr>)
      else None)"
  by (rule Block_init_eq)

theorem mining_least_nonce_witness:
  "Block_init demo_env 101 0 [genesis_tx 100] (str_mul ''0'' 64) 3 = Some demo_genesis \<and>
   timestamp demo_genesis = 101 \<and>
   int (LEAST n. meets_target demo_env
                   (unsealed 101 0 [genesis_tx 100] (str_mul ''0'' 64) 3 (int n))) = 3"
  using mining_least_nonce [of demo_env 101 0 "[genesis_tx 100]" "str_mul ''0'' 64" 3]
    demo_genesis_mined
  by (auto simp: demo_genesis_def unsealed_def split: if_splits)

section \<open>Validation\<close>

lemma validate_loop_step:
  "validate_loop E bc i =
     (if i < length (chain bc) then
        (case check_block E (Blockchain.difficulty bc) (chain bc ! (i - 1)) (chain bc ! i) of
           Some r \<Rightarrow> Invalid i r
         | None \<Rightarrow> validate_loop E bc (i + 1))
      else Valid)"
  by (subst validate_loop.simps) (simp add: check_block_def Let_def)

lemma validate_loop_Valid:
  assumes "\<And>k. i \<le> k \<Longrightarrow> k < length (chain bc) \<Longrightarrow>
             check_block E (Blockchain.difficulty bc) (chain bc ! (k - 1)) (chain bc ! k) = None"
  shows "validate_loop E bc i = Valid"
  using assms
proof (induction E bc i rule: validate_loop.induct)
  case (1 E bc i)
  show ?case
  proof (cases "i < length (chain bc)")
    case True
    have here: "check_block E (Blockchain.difficulty bc) (chain bc ! (i - 1)) (chain bc ! i) = None"
      using "1.prems" [of i] True by simp
    then have ok: "\<not> hash (chain bc ! i) \<noteq> calculate_hash E (chain bc ! i)"
      "\<not> \<not> startswith (hash (chain bc ! i)) (str_mul ''0'' (Blockchain.difficulty bc))"
      "\<not> previous_hash (chain bc ! i) \<noteq> hash (chain bc ! (i - 1))"
      by (auto simp: check_block_def split: if_splits)
    have "validate_loop E bc (i + 1) = Valid"
      using "1.IH" [OF True refl refl ok] "1.prems" by simp
    then show ?thesis
      using True here by (subst validate_loop_step) simp
  next
    case False
    then show ?thesis by (subst validate_loop_step) simp
  qed
qed

text \<open>The loop reports the first block that fails a check, with the first check it fails.\<close>

lemma validate_loop_Invalid:
  assumes "i \<le> j" and "j < length (chain bc)"
    and "\<And>k. i \<le> k \<Longrightarrow> k < j \<Longrightarrow>
           check_block E (Blockchain.difficulty bc) (chain bc ! (k - 1)) (chain bc ! k) = None"
    and "check_block E (Blockchain.difficulty bc) (chain bc ! (j - 1)) (chain bc ! j) = Some r"
  shows "validate_loop E bc i = Invalid j r"
  using assms
proof (induction "j - i" arbitrary: i)
  case 0
  then have "i = j" by simp
  then show ?case using "0.prems" by (subst validate_loop_step) simp
next
  case (Suc n)
  then have lt: "i < j" by simp
  have here: "check_block E (Blockchain.difficulty bc) (chain bc ! (i - 1)) (chain bc ! i) = None"
    using Suc.prems(3) [of i] lt by simp
  have "validate_loop E bc (i + 1) = Invalid j r"
  proof (rule Suc.hyps(1))
    show "n = j - (i + 1)" using Suc.hyps(2) by simp
    show "i + 1 \<le> j" using lt by simp
    show "j < length (chain bc)" by (rule Suc.prems(2))
    show "check_block E (Blockchain.difficulty bc) (chain bc ! (k - 1)) (chain bc ! k) = None"
      if "i + 1 \<le> k" "k < j" for k using Suc.prems(3) [of k] that by simp
    show "check_block E (Blockchain.difficulty bc) (chain bc ! (j - 1)) (chain bc ! j) = Some r"
      by (rule Suc.prems(4))
  qed
  then show ?case
    using lt Suc.prems(2) here by (subst validate_loop_step) simp
qed

lemma chain_ok_valid: "chain_ok E bc \<Longrightarrow> validate_chain E bc = Valid"
  unfolding validate_chain_def chain_ok_def
  by (rule validate_loop_Valid) simp

section \<open>The ledger keeps its chain valid\<close>

lemma add_block_eq:
  "add_block E t txs bc =
     (if chain bc = [] then Some (Raised IndexError, bc)
      else case Block_init E t (int (length (chain bc))) txs (hash (last (chain bc)))
                  (Blockchain.difficulty bc) of
             None \<Rightarrow> None
           | Some b \<Rightarrow> Some (Success, bc\<lparr>chain := chain bc @ [b]\<rparr>))"
  by (simp add: add_block_def get_latest_block_def)

lemma chain_ok_append:
  assumes "chain_ok E bc"
    and "Block_init E t (int (length (chain bc))) txs (hash (last (chain bc)))
           (Blockchain.difficulty bc) = Some b"
    and "Blockchain.difficulty bc' = Blockchain.difficulty bc"
    and "chain bc' = chain bc @ [b]"
  shows "chain_ok E bc'"
proof -
  have ne: "chain bc \<noteq> []" using assms(1) by (simp add: chain_ok_def)
  have new: "check_block E (Blockchain.difficulty bc) (last (chain bc)) b = None"
    using Block_init_fields [OF assms(2)] by (simp add: check_block_def)
  have "check_block E (Blockchain.difficulty bc') (chain bc' ! (k - 1)) (chain bc' ! k) = None"
    if "0 < k" "k < length (chain bc')" for k
  proof (cases "k < length (chain bc)")
    case True
    then show ?thesis
      using assms(1,3,4) that less_imp_diff_less [OF True, of 1]
      by (simp add: chain_ok_def nth_append)
  next
    case False
    then have "k = length (chain bc)" using that assms(4) by simp
    then show ?thesis
      using new ne assms(3,4) by (simp add: nth_append last_conv_nth)
  qed
  then show ?thesis using assms(4) by (simp add: chain_ok_def)
qed

lemma do_call_chain_ok:
  assumes "chain_ok E bc" and "do_call E c bc = Some (r, bc')"
  shows "chain_ok E bc'"
proof -
  have ne: "chain bc \<noteq> []" using assms(1) by (simp add: chain_ok_def)
  have tab: "chain_ok E (bc\<lparr>voters := vs\<rparr>)" "chain_ok E (bc\<lparr>candidates := cs\<rparr>)" for vs cs
    using assms(1) by (simp_all add: chain_ok_def)
  show ?thesis
  proof (cases c)
    case (AddVoter t_tx t_blk i n)
    then show ?thesis
      using assms ne
      by (auto simp: add_voter_def add_block_eq Let_def
          split: if_splits option.splits intro: chain_ok_append [OF tab(1)])
  next
    case (AddCandidate t_tx t_blk i n)
    then show ?thesis
      using assms ne
      by (auto simp: add_candidate_def add_block_eq Let_def
          split: if_splits option.splits intro: chain_ok_append [OF tab(2)])
  next
    case (CastVote t_tx t_blk v c)
    then show ?thesis
      using assms ne
      by (auto simp: cast_vote_def add_block_eq Let_def
          split: if_splits option.splits intro: chain_ok_append [OF tab(1)])
  qed
qed

text \<open>A property that every call preserves holds after every sequence of calls.\<close>

lemma run_induct:
  assumes "run E cs bc = Some bc'" and "P bc"
    and "\<And>c bc r bc'. P bc \<Longrightarrow> do_call E c bc = Some (r, bc') \<Longrightarrow> P bc'"
  shows "P bc'"
  using assms(1,2)
proof (induction cs arbitrary: bc)
  case Nil
  then show ?case by simp
next
  case (Cons c cs)
  from Cons.prems(1) obtain r bc1 where
    step: "do_call E c bc = Some (r, bc1)" and rest: "run E cs bc1 = Some bc'"
    by (auto split: option.splits result.splits)
  from assms(3) [OF Cons.prems(2) step] have "P bc1" .
  from Cons.IH [OF rest this] show ?case .
qed

lemma Blockchain_init_chain_ok:
  "Blockchain_init E t_tx t_blk d = Some bc \<Longrightarrow> chain_ok E bc"
  by (auto simp: Blockchain_init_def chain_ok_def split: option.splits)

lemma reachable_chain_ok:
  assumes "Blockchain_init E t_tx t_blk d = Some bc0" and "run E cs bc0 = Some bc"
  shows "chain_ok E bc"
  using assms(2) Blockchain_init_chain_ok [OF assms(1)]
  by (rule run_induct) (rule do_call_chain_ok)

text \<open>
  C2.  On the ledger reached from a fresh one by any sequence of calls of \<open>add_voter\<close>,
  \<open>add_candidate\<close> and \<open>cast_vote\<close>, \<open>validate_chain\<close> returns valid.
\<close>

theorem ledger_chain_valid:
  assumes "Blockchain_init E t_tx t_blk d = Some bc0" and "run E cs bc0 = Some bc"
  shows "validate_chain E bc = Valid"
  using reachable_chain_ok [OF assms] by (rule chain_ok_valid)

theorem ledger_chain_valid_witness:
  "Blockchain_init demo_env 100 101 3 = Some demo_fresh \<and>
   run demo_env demo_calls demo_fresh = Some demo_voted \<and>
   validate_chain demo_env demo_voted = Valid"
  using ledger_chain_valid [OF demo_init demo_run] demo_init demo_run by simp

section \<open>The three mutating methods\<close>

lemma update_absent: "map_of al k = None \<Longrightarrow> AList.update k v al = al @ [(k, v)]"
  by (induction al) (auto split: if_splits)

lemma Block_init_terminates:
  assumes "meets_target E (unsealed now idx txs prev d (int k))"
  shows "\<exists>b. Block_init E now idx txs prev d = Some b \<and> transactions b = txs"
proof -
  from assms have "\<exists>n. meets_target E (unsealed now idx txs prev d (int n))" by blast
  then obtain b where b: "Block_init E now idx txs prev d = Some b"
    by (simp add: Block_init_eq)
  with Block_init_fields(3) [OF b] show ?thesis by simp
qed

text \<open>
  C6.  \<open>add_voter\<close> strips both arguments.  It fails with \<open>EmptyField\<close> when either is then
  empty, and with \<open>DuplicateVoterId\<close> when the stripped id is a key of the voters table, both
  times leaving the ledger as it is.  Otherwise, on a ledger whose chain is not empty and when
  some nonce meets the target for the new block, it returns success: the voters table has the
  new entry with the stripped id and name and \<open>has_voted = False\<close> at its end, and the chain has
  one more block, the one mined for the single \<open>ADD_VOTER\<close> transaction.
\<close>

theorem add_voter_spec:
  assumes vid: "vid = strip voter_id_arg" and nm: "nm = strip name_arg"
    and tx: "tx = \<lparr>tx_type = ''ADD_VOTER'',
                   payload = [(''voter_id'', PyStr vid), (''name'', PyStr nm),
                              (''has_voted'', PyBool False)],
                   tx_timestamp = t_tx\<rparr>"
  shows
  "(vid = [] \<or> nm = [] \<longrightarrow>
      add_voter E t_tx t_blk bc voter_id_arg name_arg = Some (Failure EmptyField, bc)) \<and>
   (vid \<noteq> [] \<and> nm \<noteq> [] \<and> map_of (voters bc) vid \<noteq> None \<longrightarrow>
      add_voter E t_tx t_blk bc voter_id_arg name_arg = Some (Failure DuplicateVoterId, bc)) \<and>
   (vid \<noteq> [] \<and> nm \<noteq> [] \<and> map_of (voters bc) vid = None \<and> chain bc \<noteq> [] \<and>
    meets_target E (unsealed t_blk (int (length (chain bc))) [tx] (hash (last (chain bc)))
                      (Blockchain.difficulty bc) (int k)) \<longrightarrow>
      (\<exists>b. Block_init E t_blk (int (length (chain bc))) [tx] (hash (last (chain bc)))
                (Blockchain.difficulty bc) = Some b \<and>
           transactions b = [tx] \<and>
           add_voter E t_tx t_blk bc voter_id_arg name_arg =
             Some (Success,
                   bc\<lparr>voters := voters bc @
                         [(vid, \<lparr>voter_id = vid, Voter.name = nm, has_voted = False\<rparr>)],
                      chain := chain bc @ [b]\<rparr>)))"
proof (intro conjI impI)
  show "add_voter E t_tx t_blk bc voter_id_arg name_arg = Some (Failure EmptyField, bc)"
    if "vid = [] \<or> nm = []"
    using that by (auto simp: add_voter_def vid nm Let_def)
  show "add_voter E t_tx t_blk bc voter_id_arg name_arg = Some (Failure DuplicateVoterId, bc)"
    if "vid \<noteq> [] \<and> nm \<noteq> [] \<and> map_of (voters bc) vid \<noteq> None"
    using that by (auto simp: add_voter_def vid nm Let_def)
  show "\<exists>b. Block_init E t_blk (int (length (chain bc))) [tx] (hash (last (chain bc)))
                (Blockchain.difficulty bc) = Some b \<and>
           transactions b = [tx] \<and>
           add_voter E t_tx t_blk bc voter_id_arg name_arg =
             Some (Success,
                   bc\<lparr>voters := voters bc @
                         [(vid, \<lparr>voter_id = vid, Voter.name = nm, has_voted = False\<rparr>)],
                      chain := chain bc @ [b]\<rparr>)"
    if h: "vid \<noteq> [] \<and> nm \<noteq> [] \<and> map_of (voters bc) vid = None \<and> chain bc \<noteq> [] \<and>
        meets_target E (unsealed t_blk (int (length (chain bc))) [tx] (hash (last (chain bc)))
                      (Blockchain.difficulty bc) (int k))"
  proof -
    from h have "meets_target E (unsealed t_blk (int (length (chain bc))) [tx]
                   (hash (last (chain bc))) (Blockchain.difficulty bc) (int k))"
      by simp
    from Block_init_terminates [OF this] obtain b where
      b: "Block_init E t_blk (int (length (chain bc))) [tx] (hash (last (chain bc)))
            (Blockchain.difficulty bc) = Some b" and txs: "transactions b = [tx]"
      by blast
    have "add_voter E t_tx t_blk bc voter_id_arg name_arg =
             Some (Success,
                   bc\<lparr>voters := voters bc @
                         [(vid, \<lparr>voter_id = vid, Voter.name = nm, has_voted = False\<rparr>)],
                      chain := chain bc @ [b]\<rparr>)"
      using h b [unfolded tx vid nm]
      by (simp add: add_voter_def add_block_eq Let_def update_absent Transaction_add_voter_def
          asdict_Voter_def vid nm)
    with b txs show ?thesis by blast
  qed
qed

text \<open>
  C4.  \<open>cast_vote\<close> strips both arguments.  It fails with \<open>UnknownVoter\<close> when the voter id
  is not a key of the voters table, whatever the candidate id is; otherwise with
  \<open>UnknownCandidate\<close> when the candidate id is not a key of the candidates table; otherwise with
  \<open>AlreadyVoted\<close> when the voter has voted; each time leaving the ledger as it is.  Otherwise, on
  a ledger whose chain is not empty and when some nonce meets the target for the new block, it
  returns success: the voter's flag is set, and the chain has one more block, the one mined for
  the single \<open>CAST_VOTE\<close> transaction.
\<close>

theorem cast_vote_spec:
  assumes vid: "vid = strip voter_id_arg" and cid: "cid = strip candidate_id_arg"
    and tx: "tx = \<lparr>tx_type = ''CAST_VOTE'',
                   payload = [(''voter_id'', PyStr vid), (''candidate_id'', PyStr cid)],
                   tx_timestamp = t_tx\<rparr>"
  shows
  "(map_of (voters bc) vid = None \<longrightarrow>
      cast_vote E t_tx t_blk bc voter_id_arg candidate_id_arg = Some (Failure UnknownVoter, bc)) \<and>
   (map_of (voters bc) vid \<noteq> None \<and> map_of (candidates bc) cid = None \<longrightarrow>
      cast_vote E t_tx t_blk bc voter_id_arg candidate_id_arg = Some (Failure UnknownCandidate, bc)) \<and>
   (map_of (voters bc) vid = Some voter \<and> map_of (candidates bc) cid \<noteq> None \<and> has_voted voter
      \<longrightarrow>
      cast_vote E t_tx t_blk bc voter_id_arg candidate_id_arg = Some (Failure AlreadyVoted, bc)) \<and>
   (map_of (voters bc) vid = Some voter \<and> map_of (candidates bc) cid \<noteq> None \<and>
    \<not> has_voted voter \<and> chain bc \<noteq> [] \<and>
    meets_target E (unsealed t_blk (int (length (chain bc))) [tx] (hash (last (chain bc)))
                      (Blockchain.difficulty bc) (int k)) \<longrightarrow>
      (\<exists>b. Block_init E t_blk (int (length (chain bc))) [tx] (hash (last (chain bc)))
                (Blockchain.difficulty bc) = Some b \<and>
           transactions b = [tx] \<and>
           cast_vote E t_tx t_blk bc voter_id_arg candidate_id_arg =
             Some (Success,
                   bc\<lparr>voters := AList.update vid (voter\<lparr>has_voted := True\<rparr>) (voters bc),
                      chain := chain bc @ [b]\<rparr>)))"
proof (intro conjI impI)
  show "cast_vote E t_tx t_blk bc voter_id_arg candidate_id_arg = Some (Failure UnknownVoter, bc)"
    if "map_of (voters bc) vid = None"
    using that by (simp add: cast_vote_def vid Let_def)
  show "cast_vote E t_tx t_blk bc voter_id_arg candidate_id_arg = Some (Failure UnknownCandidate, bc)"
    if "map_of (voters bc) vid \<noteq> None \<and> map_of (candidates bc) cid = None"
    using that by (auto simp: cast_vote_def vid cid Let_def)
  show "cast_vote E t_tx t_blk bc voter_id_arg candidate_id_arg = Some (Failure AlreadyVoted, bc)"
    if "map_of (voters bc) vid = Some voter \<and> map_of (candidates bc) cid \<noteq> None \<and> has_voted voter"
    using that by (auto simp: cast_vote_def vid cid Let_def)
  show "\<exists>b. Block_init E t_blk (int (length (chain bc))) [tx] (hash (last (chain bc)))
                (Blockchain.difficulty bc) = Some b \<and>
           transactions b = [tx] \<and>
           cast_vote E t_tx t_blk bc voter_id_arg candidate_id_arg =
             Some (Success,
                   bc\<lparr>voters := AList.update vid (voter\<lparr>has_voted := True\<rparr>) (voters bc),
                      chain := chain bc @ [b]\<rparr>)"
    if h: "map_of (voters bc) vid = Some voter \<and> map_of (candidates bc) cid \<noteq> None \<and>
        \<not> has_voted voter \<and> chain bc \<noteq> [] \<and>
        meets_target E (unsealed t_blk (int (length (chain bc))) [tx] (hash (last (chain bc)))
                      (Blockchain.difficulty bc) (int k))"
  proof -
    from h have "meets_target E (unsealed t_blk (int (length (chain bc))) [tx]
                   (hash (last (chain bc))) (Blockchain.difficulty bc) (int k))"
      by simp
    from Block_init_terminates [OF this] obtain b where
      b: "Block_init E t_blk (int (length (chain bc))) [tx] (hash (last (chain bc)))
            (Blockchain.difficulty bc) = Some b" and txs: "transactions b = [tx]"
      by blast
    have "cast_vote E t_tx t_blk bc voter_id_arg candidate_id_arg =
             Some (Success,
                   bc\<lparr>voters := AList.update vid (voter\<lparr>has_voted := True\<rparr>) (voters bc),
                      chain := chain bc @ [b]\<rparr>)"
      using h b [unfolded tx vid cid]
      by (auto simp: cast_vote_def add_block_eq Let_def Transaction_cast_vote_def vid cid)
    with b txs show ?thesis by blast
  qed
qed


lemma demo_strip: "strip (ustr '' V1 '') = ustr ''V1''" "strip (ustr '' Alice '') = ustr ''Alice''" "strip (ustr ''  '') = []"
  "strip (ustr ''Name'') = ustr ''Name''" "strip (ustr ''V1'') = ustr ''V1''" "strip (ustr ''C1'') = ustr ''C1''"
  "strip (ustr ''Bob'') = ustr ''Bob''" "strip (ustr ''X'') = ustr ''X''" "strip (ustr ''Y'') = ustr ''Y''"
  by code_simp+

lemma demo_block2_mined:
  "Block_init demo_env 105 2
     [\<lparr>tx_type = ''ADD_VOTER'',
       payload = [(''voter_id'', PyStr (ustr ''V1'')), (''name'', PyStr (ustr ''Alice'')),
                  (''has_voted'', PyBool False)],
       tx_timestamp = 104\<rparr>] ''000115'' 3 = Some demo_block2"
  by code_simp

lemma demo_block2_target:
  "meets_target demo_env
     (unsealed 105 2
        [\<lparr>tx_type = ''ADD_VOTER'',
          payload = [(''voter_id'', PyStr (ustr ''V1'')), (''name'', PyStr (ustr ''Alice'')),
                     (''has_voted'', PyBool False)],
          tx_timestamp = 104\<rparr>] ''000115'' 3 (int 3))"
  by code_simp

lemma demo_block3_mined:
  "Block_init demo_env 107 3
     [\<lparr>tx_type = ''CAST_VOTE'',
       payload = [(''voter_id'', PyStr (ustr ''V1'')), (''candidate_id'', PyStr (ustr ''C1''))],
       tx_timestamp = 106\<rparr>] ''000128'' 3 = Some demo_block3"
  by code_simp

lemma demo_block3_target:
  "meets_target demo_env
     (unsealed 107 3
        [\<lparr>tx_type = ''CAST_VOTE'',
          payload = [(''voter_id'', PyStr (ustr ''V1'')), (''candidate_id'', PyStr (ustr ''C1''))],
          tx_timestamp = 106\<rparr>] ''000128'' 3 (int 3))"
  by code_simp

theorem add_voter_spec_witness:
  "add_voter demo_env 104 105 demo_fresh (ustr ''  '') (ustr ''Name'') = Some (Failure EmptyField, demo_fresh) \<and>
   add_voter demo_env 104 105 demo_registered (ustr ''V1'') (ustr ''Bob'')
     = Some (Failure DuplicateVoterId, demo_registered) \<and>
   add_voter demo_env 104 105 demo_with_candidate (ustr '' V1 '') (ustr '' Alice '')
     = Some (Success, demo_registered)"
proof (intro conjI)
  show "add_voter demo_env 104 105 demo_fresh (ustr ''  '') (ustr ''Name'')
          = Some (Failure EmptyField, demo_fresh)"
    using add_voter_spec [where voter_id_arg = "ustr ''  ''" and name_arg = "ustr ''Name''" and E = demo_env
        and bc = demo_fresh and t_tx = 104 and t_blk = 105, OF refl refl refl]
    by (simp add: demo_strip)
  show "add_voter demo_env 104 105 demo_registered (ustr ''V1'') (ustr ''Bob'')
          = Some (Failure DuplicateVoterId, demo_registered)"
    using add_voter_spec [where voter_id_arg = "ustr ''V1''" and name_arg = "ustr ''Bob''" and E = demo_env
        and bc = demo_registered and t_tx = 104 and t_blk = 105, OF refl refl refl]
    by (simp add: demo_strip demo_registered_def)
  show "add_voter demo_env 104 105 demo_with_candidate (ustr '' V1 '') (ustr '' Alice '')
          = Some (Success, demo_registered)"
    using add_voter_spec [where voter_id_arg = "ustr '' V1 ''" and name_arg = "ustr '' Alice ''" and E = demo_env
        and bc = demo_with_candidate and t_tx = 104 and t_blk = 105 and k = 3, OF refl refl refl]
      demo_block2_mined demo_block2_target
    by (simp add: demo_strip demo_with_candidate_def demo_registered_def demo_block1_def)
qed

theorem cast_vote_spec_witness:
  "cast_vote demo_env 106 107 demo_fresh (ustr ''X'') (ustr ''Y'') = Some (Failure UnknownVoter, demo_fresh) \<and>
   cast_vote demo_env 106 107 demo_registered (ustr ''V1'') (ustr ''Y'')
     = Some (Failure UnknownCandidate, demo_registered) \<and>
   cast_vote demo_env 106 107 demo_voted (ustr ''V1'') (ustr ''C1'') = Some (Failure AlreadyVoted, demo_voted) \<and>
   cast_vote demo_env 106 107 demo_registered (ustr ''V1'') (ustr ''C1'') = Some (Success, demo_voted)"
proof (intro conjI)
  show "cast_vote demo_env 106 107 demo_fresh (ustr ''X'') (ustr ''Y'') = Some (Failure UnknownVoter, demo_fresh)"
    using cast_vote_spec [where voter_id_arg = "ustr ''X''" and candidate_id_arg = "ustr ''Y''" and E = demo_env
        and bc = demo_fresh and t_tx = 106 and t_blk = 107, OF refl refl refl]
    by (simp add: demo_strip demo_fresh_def)
  show "cast_vote demo_env 106 107 demo_registered (ustr ''V1'') (ustr ''Y'')
          = Some (Failure UnknownCandidate, demo_registered)"
    using cast_vote_spec [where voter_id_arg = "ustr ''V1''" and candidate_id_arg = "ustr ''Y''" and E = demo_env
        and bc = demo_registered and t_tx = 106 and t_blk = 107, OF refl refl refl]
    by (simp add: demo_strip demo_registered_def)
  show "cast_vote demo_env 106 107 demo_voted (ustr ''V1'') (ustr ''C1'')
          = Some (Failure AlreadyVoted, demo_voted)"
    using cast_vote_spec [where voter_id_arg = "ustr ''V1''" and candidate_id_arg = "ustr ''C1''" and E = demo_env
        and bc = demo_voted and t_tx = 106 and t_blk = 107
        and voter = "\<lparr>voter_id = ustr ''V1'', Voter.name = ustr ''Alice'', has_voted = True\<rparr>",
        OF refl refl refl]
    by (simp add: demo_strip demo_voted_def)
  show "cast_vote demo_env 106 107 demo_registered (ustr ''V1'') (ustr ''C1'') = Some (Success, demo_voted)"
    using cast_vote_spec [where voter_id_arg = "ustr ''V1''" and candidate_id_arg = "ustr ''C1''" and E = demo_env
        and bc = demo_registered and t_tx = 106 and t_blk = 107 and k = 3
        and voter = "\<lparr>voter_id = ustr ''V1'', Voter.name = ustr ''Alice'', has_voted = False\<rparr>",
        OF refl refl refl]
      demo_block3_mined demo_block3_target
    by (simp add: demo_strip demo_registered_def demo_voted_def demo_block2_def)
qed

section \<open>Atomicity and frames\<close>

lemma add_voter_cases:
  assumes "add_voter E t_tx t_blk bc i n = Some (r, bc')"
  shows "(\<exists>e. r = Failure e \<and> bc' = bc) \<or>
         (r = Raised IndexError \<and> chain bc = []) \<or>
         (r = Success \<and> chain bc \<noteq> [] \<and> map_of (voters bc) (strip i) = None \<and>
          (\<exists>b. Block_init E t_blk (int (length (chain bc)))
                  [Transaction_add_voter t_tx
                     \<lparr>voter_id = strip i, Voter.name = strip n, has_voted = False\<rparr>]
                  (hash (last (chain bc))) (Blockchain.difficulty bc) = Some b \<and>
               bc' = bc\<lparr>voters := voters bc @
                            [(strip i, \<lparr>voter_id = strip i, Voter.name = strip n,
                                        has_voted = False\<rparr>)],
                         chain := chain bc @ [b]\<rparr>))"
  using assms
  by (auto simp: add_voter_def add_block_eq Let_def update_absent
      split: if_splits option.splits)

lemma add_candidate_cases:
  assumes "add_candidate E t_tx t_blk bc i n = Some (r, bc')"
  shows "(\<exists>e. r = Failure e \<and> bc' = bc) \<or>
         (r = Raised IndexError \<and> chain bc = []) \<or>
         (r = Success \<and> chain bc \<noteq> [] \<and> map_of (candidates bc) (strip i) = None \<and>
          (\<exists>b. Block_init E t_blk (int (length (chain bc)))
                  [Transaction_add_candidate t_tx
                     \<lparr>candidate_id = strip i, Candidate.name = strip n\<rparr>]
                  (hash (last (chain bc))) (Blockchain.difficulty bc) = Some b \<and>
               bc' = bc\<lparr>candidates := candidates bc @
                            [(strip i, \<lparr>candidate_id = strip i, Candidate.name = strip n\<rparr>)],
                         chain := chain bc @ [b]\<rparr>))"
  using assms
  by (auto simp: add_candidate_def add_block_eq Let_def update_absent
      split: if_splits option.splits)

lemma cast_vote_cases:
  assumes "cast_vote E t_tx t_blk bc v c = Some (r, bc')"
  shows "(\<exists>e. r = Failure e \<and> bc' = bc) \<or>
         (r = Raised IndexError \<and> chain bc = []) \<or>
         (r = Success \<and> chain bc \<noteq> [] \<and>
          (\<exists>voter b. map_of (voters bc) (strip v) = Some voter \<and> \<not> has_voted voter \<and>
               map_of (candidates bc) (strip c) \<noteq> None \<and>
               Block_init E t_blk (int (length (chain bc)))
                  [Transaction_cast_vote t_tx (strip v) (strip c)]
                  (hash (last (chain bc))) (Blockchain.difficulty bc) = Some b \<and>
               bc' = bc\<lparr>voters := AList.update (strip v) (voter\<lparr>has_voted := True\<rparr>) (voters bc),
                         chain := chain bc @ [b]\<rparr>))"
  using assms
  by (auto simp: cast_vote_def add_block_eq Let_def
      split: if_splits option.splits)

text \<open>
  C5.  Each of the three methods is atomic for its caller.  When a call returns failure, the
  whole ledger (chain, voters, candidates, difficulty) is the one before the call.  When it
  returns success, the chain has exactly one more block and the table of the call has its
  update: the new voter or candidate at the end of its table, or the voter's flag set.
\<close>

theorem calls_atomic:
  assumes "do_call E c bc = Some (r, bc')"
  shows "(r = Failure e \<longrightarrow> bc' = bc) \<and>
         (r = Success \<longrightarrow>
            (\<exists>b. chain bc' = chain bc @ [b]) \<and>
            Blockchain.difficulty bc' = Blockchain.difficulty bc \<and>
            (case c of
               AddVoter t_tx t_blk i n \<Rightarrow>
                 voters bc' = voters bc @
                   [(strip i, \<lparr>voter_id = strip i, Voter.name = strip n, has_voted = False\<rparr>)] \<and>
                 candidates bc' = candidates bc
             | AddCandidate t_tx t_blk i n \<Rightarrow>
                 candidates bc' = candidates bc @
                   [(strip i, \<lparr>candidate_id = strip i, Candidate.name = strip n\<rparr>)] \<and>
                 voters bc' = voters bc
             | CastVote t_tx t_blk v ca \<Rightarrow>
                 (\<exists>voter. map_of (voters bc) (strip v) = Some voter \<and>
                    voters bc' = AList.update (strip v) (voter\<lparr>has_voted := True\<rparr>) (voters bc)) \<and>
                 candidates bc' = candidates bc))"
proof (cases c)
  case (AddVoter t_tx t_blk i n)
  with assms add_voter_cases [of E t_tx t_blk bc i n r bc'] show ?thesis by auto
next
  case (AddCandidate t_tx t_blk i n)
  with assms add_candidate_cases [of E t_tx t_blk bc i n r bc'] show ?thesis by auto
next
  case (CastVote t_tx t_blk v ca)
  with assms cast_vote_cases [of E t_tx t_blk bc v ca r bc'] show ?thesis by auto
qed

lemma demo_call_fails:
  "do_call demo_env (AddVoter 108 109 (ustr ''V1'') (ustr ''Bob'')) demo_voted
     = Some (Failure DuplicateVoterId, demo_voted)"
  by code_simp

lemma demo_call_succeeds:
  "do_call demo_env (CastVote 106 107 (ustr ''V1'') (ustr ''C1'')) demo_registered = Some (Success, demo_voted)"
  by code_simp

theorem calls_atomic_witness:
  "do_call demo_env (AddVoter 108 109 (ustr ''V1'') (ustr ''Bob'')) demo_voted
     = Some (Failure DuplicateVoterId, demo_voted) \<and>
   do_call demo_env (CastVote 106 107 (ustr ''V1'') (ustr ''C1'')) demo_registered = Some (Success, demo_voted) \<and>
   chain demo_voted = chain demo_registered @ [demo_block3] \<and>
   voters demo_voted =
     AList.update (ustr ''V1'') \<lparr>voter_id = ustr ''V1'', Voter.name = ustr ''Alice'', has_voted = True\<rparr>
       (voters demo_registered) \<and>
   candidates demo_voted = candidates demo_registered"
  using calls_atomic [OF demo_call_fails, of DuplicateVoterId] calls_atomic [OF demo_call_succeeds]
    demo_call_fails demo_call_succeeds
  by (simp add: demo_voted_def demo_registered_def demo_strip)

section \<open>The genesis block\<close>

lemma validate_loop_cong:
  assumes "length (chain bc2) = length (chain bc1)"
    and "Blockchain.difficulty bc2 = Blockchain.difficulty bc1"
    and "\<And>k. 0 < k \<Longrightarrow> k < length (chain bc1) \<Longrightarrow> chain bc2 ! k = chain bc1 ! k"
    and "hash (chain bc2 ! 0) = hash (chain bc1 ! 0)"
    and "0 < i"
  shows "validate_loop E bc2 i = validate_loop E bc1 i"
  using assms(5)
proof (induction "length (chain bc1) - i" arbitrary: i)
  case 0
  then show ?case
    using assms(1) by (subst (1 2) validate_loop_step) simp
next
  case (Suc m)
  then have lt: "i < length (chain bc1)" by simp
  have cur: "chain bc2 ! i = chain bc1 ! i"
    using assms(3) [of i] lt Suc.prems by simp
  have prev: "hash (chain bc2 ! (i - 1)) = hash (chain bc1 ! (i - 1))"
  proof (cases "i = 1")
    case True
    then show ?thesis using assms(4) by simp
  next
    case False
    then have "chain bc2 ! (i - 1) = chain bc1 ! (i - 1)"
      using assms(3) [of "i - 1"] lt Suc.prems by simp
    then show ?thesis by simp
  qed
  have chk: "check_block E (Blockchain.difficulty bc2) (chain bc2 ! (i - 1)) (chain bc2 ! i)
              = check_block E (Blockchain.difficulty bc1) (chain bc1 ! (i - 1)) (chain bc1 ! i)"
    using cur prev assms(2) by (simp add: check_block_def)
  have "validate_loop E bc2 (i + 1) = validate_loop E bc1 (i + 1)"
    using Suc.hyps(2) by (intro Suc.hyps(1)) simp_all
  then show ?case
    using lt assms(1) chk by (subst (1 2) validate_loop_step) (simp split: option.splits)
qed

text \<open>
  C9.  \<open>validate_chain\<close> does not check the genesis block: on a chain of length 1 it returns
  valid whatever the block holds, and on any chain its result is the same for every first block
  with the same stored hash, so that a change of any other field of the genesis block goes
  unnoticed.
\<close>

theorem genesis_not_validated:
  "validate_chain E (bc\<lparr>chain := [g]\<rparr>) = Valid \<and>
   (hash g' = hash g \<longrightarrow>
      validate_chain E (bc\<lparr>chain := g' # rest\<rparr>) = validate_chain E (bc\<lparr>chain := g # rest\<rparr>))"
proof (intro conjI impI)
  show "validate_chain E (bc\<lparr>chain := [g]\<rparr>) = Valid"
    unfolding validate_chain_def by (subst validate_loop_step) simp
  show "validate_chain E (bc\<lparr>chain := g' # rest\<rparr>) = validate_chain E (bc\<lparr>chain := g # rest\<rparr>)"
    if "hash g' = hash g"
    unfolding validate_chain_def
    using that by (intro validate_loop_cong) (simp_all add: nth_Cons')
qed

theorem genesis_not_validated_witness:
  "hash demo_genesis_forged = hash demo_genesis \<and>
   validate_chain demo_env (demo_fresh\<lparr>chain := [demo_genesis_forged]\<rparr>) = Valid \<and>
   validate_chain demo_env
     (demo_voted\<lparr>chain := [demo_genesis_forged, demo_block1, demo_block2, demo_block3]\<rparr>) = Valid"
proof -
  have same: "hash demo_genesis_forged = hash demo_genesis"
    by (simp add: demo_genesis_forged_def demo_genesis_def)
  have "validate_chain demo_env demo_voted = Valid"
    using reachable_chain_ok [OF demo_init demo_run] by (rule chain_ok_valid)
  moreover have "demo_voted\<lparr>chain := [demo_genesis, demo_block1, demo_block2, demo_block3]\<rparr>
                   = demo_voted"
    by (simp add: demo_voted_def)
  ultimately show ?thesis
    using same
      genesis_not_validated [where E = demo_env and bc = demo_fresh and g = demo_genesis_forged]
      genesis_not_validated [where E = demo_env and bc = demo_voted and g = demo_genesis
        and g' = demo_genesis_forged and rest = "[demo_block1, demo_block2, demo_block3]"]
    by simp
qed

section \<open>Replay\<close>

lemma spec_replay_append:
  "transactions b = [tx] \<Longrightarrow> spec_replay (bs @ [b]) = spec_replay_tx tx (spec_replay bs)"
  by (simp add: spec_replay_def)

lemma spec_replay_add_voter:
  "map_of vs i = None \<Longrightarrow>
   spec_replay_tx (Transaction_add_voter t \<lparr>voter_id = i, Voter.name = n, has_voted = False\<rparr>)
     (vs, cs) = (vs @ [(i, \<lparr>voter_id = i, Voter.name = n, has_voted = False\<rparr>)], cs)"
  by (simp add: spec_replay_tx_def Transaction_add_voter_def asdict_Voter_def update_absent)

lemma spec_replay_add_candidate:
  "map_of cs i = None \<Longrightarrow>
   spec_replay_tx (Transaction_add_candidate t \<lparr>candidate_id = i, Candidate.name = n\<rparr>)
     (vs, cs) = (vs, cs @ [(i, \<lparr>candidate_id = i, Candidate.name = n\<rparr>)])"
  by (simp add: spec_replay_tx_def Transaction_add_candidate_def asdict_Candidate_def
      update_absent)

lemma spec_replay_cast_vote:
  "map_of vs i = Some v \<Longrightarrow>
   spec_replay_tx (Transaction_cast_vote t i c) (vs, cs)
     = (AList.update i (v\<lparr>has_voted := True\<rparr>) vs, cs)"
  by (simp add: spec_replay_tx_def Transaction_cast_vote_def)

lemma do_call_replay_ok:
  assumes "replay_ok bc" and "do_call E c bc = Some (r, bc')"
  shows "replay_ok bc'"
proof -
  have ne: "chain bc \<noteq> []" and rp: "spec_replay (chain bc) = (voters bc, candidates bc)"
    using assms(1) by (simp_all add: replay_ok_def)
  show ?thesis
  proof (cases c)
    case (AddVoter t_tx t_blk i n)
    with assms(2) have "add_voter E t_tx t_blk bc i n = Some (r, bc')" by simp
    from add_voter_cases [OF this] ne show ?thesis
    proof (elim disjE exE conjE)
      fix e assume "bc' = bc" then show ?thesis using assms(1) by simp
    next
      fix b
      assume absent: "map_of (voters bc) (strip i) = None"
        and b: "Block_init E t_blk (int (length (chain bc)))
                  [Transaction_add_voter t_tx
                     \<lparr>voter_id = strip i, Voter.name = strip n, has_voted = False\<rparr>]
                  (hash (last (chain bc))) (Blockchain.difficulty bc) = Some b"
        and bc': "bc' = bc\<lparr>voters := voters bc @
                            [(strip i, \<lparr>voter_id = strip i, Voter.name = strip n,
                                        has_voted = False\<rparr>)],
                         chain := chain bc @ [b]\<rparr>"
      show ?thesis
        using spec_replay_append [OF Block_init_fields(3) [OF b], of "chain bc"] rp absent
        by (simp add: replay_ok_def bc' spec_replay_add_voter)
    qed simp
  next
    case (AddCandidate t_tx t_blk i n)
    with assms(2) have "add_candidate E t_tx t_blk bc i n = Some (r, bc')" by simp
    from add_candidate_cases [OF this] ne show ?thesis
    proof (elim disjE exE conjE)
      fix e assume "bc' = bc" then show ?thesis using assms(1) by simp
    next
      fix b
      assume absent: "map_of (candidates bc) (strip i) = None"
        and b: "Block_init E t_blk (int (length (chain bc)))
                  [Transaction_add_candidate t_tx
                     \<lparr>candidate_id = strip i, Candidate.name = strip n\<rparr>]
                  (hash (last (chain bc))) (Blockchain.difficulty bc) = Some b"
        and bc': "bc' = bc\<lparr>candidates := candidates bc @
                            [(strip i, \<lparr>candidate_id = strip i, Candidate.name = strip n\<rparr>)],
                         chain := chain bc @ [b]\<rparr>"
      show ?thesis
        using spec_replay_append [OF Block_init_fields(3) [OF b], of "chain bc"] rp absent
        by (simp add: replay_ok_def bc' spec_replay_add_candidate)
    qed simp
  next
    case (CastVote t_tx t_blk v ca)
    with assms(2) have "cast_vote E t_tx t_blk bc v ca = Some (r, bc')" by simp
    from cast_vote_cases [OF this] ne show ?thesis
    proof (elim disjE exE conjE)
      fix e assume "bc' = bc" then show ?thesis using assms(1) by simp
    next
      fix voter b
      assume present: "map_of (voters bc) (strip v) = Some voter"
        and b: "Block_init E t_blk (int (length (chain bc)))
                  [Transaction_cast_vote t_tx (strip v) (strip ca)]
                  (hash (last (chain bc))) (Blockchain.difficulty bc) = Some b"
        and bc': "bc' = bc\<lparr>voters := AList.update (strip v) (voter\<lparr>has_voted := True\<rparr>)
                                      (voters bc),
                         chain := chain bc @ [b]\<rparr>"
      show ?thesis
        using spec_replay_append [OF Block_init_fields(3) [OF b], of "chain bc"] rp present
        by (simp add: replay_ok_def bc' spec_replay_cast_vote)
    qed simp
  qed
qed

lemma Blockchain_init_replay_ok:
  assumes "Blockchain_init E t_tx t_blk d = Some bc"
  shows "replay_ok bc"
proof -
  from assms obtain g where
    g: "Block_init E t_blk 0 [genesis_tx t_tx] (str_mul ''0'' 64) d = Some g" and
    bc: "bc = \<lparr>Blockchain.difficulty = d, chain = [g], voters = [], candidates = []\<rparr>"
    by (auto simp: Blockchain_init_def create_genesis_block_def split: option.splits)
  have "spec_replay [g] = ([], [])"
    using Block_init_fields(3) [OF g]
    by (simp add: spec_replay_def spec_replay_tx_def genesis_tx_def)
  then show ?thesis by (simp add: replay_ok_def bc)
qed

text \<open>
  C7.  On the ledger reached from a fresh one by any sequence of calls, replaying the
  transactions of the chain from the genesis block on gives the voters table and the candidates
  table of the ledger, entry for entry in the same order, with every flag \<open>has_voted\<close>.
\<close>

theorem replay_reproduces_tables:
  assumes "Blockchain_init E t_tx t_blk d = Some bc0" and "run E cs bc0 = Some bc"
  shows "spec_replay (chain bc) = (voters bc, candidates bc)"
proof -
  have "replay_ok bc"
    using assms(2) Blockchain_init_replay_ok [OF assms(1)]
    by (rule run_induct) (rule do_call_replay_ok)
  then show ?thesis by (simp add: replay_ok_def)
qed

theorem replay_reproduces_tables_witness:
  "Blockchain_init demo_env 100 101 3 = Some demo_fresh \<and>
   run demo_env demo_calls demo_fresh = Some demo_voted \<and>
   spec_replay (chain demo_voted)
     = ([(ustr ''V1'', \<lparr>voter_id = ustr ''V1'', Voter.name = ustr ''Alice'', has_voted = True\<rparr>)],
        [(ustr ''C1'', \<lparr>candidate_id = ustr ''C1'', Candidate.name = ustr ''Rose''\<rparr>)])"
  using replay_reproduces_tables [OF demo_init demo_run] demo_init demo_run
  by (simp add: demo_voted_def)

section \<open>Namespaces\<close>

lemma add_candidate_succeeds:
  assumes "strip i \<noteq> []" and "strip n \<noteq> []" and "map_of (candidates bc) (strip i) = None"
    and "chain bc \<noteq> []"
    and "meets_target E
           (unsealed t_blk (int (length (chain bc)))
              [Transaction_add_candidate t_tx \<lparr>candidate_id = strip i, Candidate.name = strip n\<rparr>]
              (hash (last (chain bc))) (Blockchain.difficulty bc) (int k))"
  shows "\<exists>b. add_candidate E t_tx t_blk bc i n =
           Some (Success,
                 bc\<lparr>candidates := candidates bc @
                        [(strip i, \<lparr>candidate_id = strip i, Candidate.name = strip n\<rparr>)],
                    chain := chain bc @ [b]\<rparr>)"
proof -
  from Block_init_terminates [OF assms(5)] obtain b where
    "Block_init E t_blk (int (length (chain bc)))
       [Transaction_add_candidate t_tx \<lparr>candidate_id = strip i, Candidate.name = strip n\<rparr>]
       (hash (last (chain bc))) (Blockchain.difficulty bc) = Some b"
    by blast
  then have "add_candidate E t_tx t_blk bc i n =
           Some (Success,
                 bc\<lparr>candidates := candidates bc @
                        [(strip i, \<lparr>candidate_id = strip i, Candidate.name = strip n\<rparr>)],
                    chain := chain bc @ [b]\<rparr>)"
    using assms(1-4) by (simp add: add_candidate_def add_block_eq Let_def update_absent)
  then show ?thesis by blast
qed

text \<open>
  C10.  Voter ids and candidate ids are separate namespaces.  What \<open>add_voter\<close> does is the same
  whatever the candidates table holds, and it returns that table as it was; \<open>add_candidate\<close>
  likewise with the voters table.  So a string that is already a voter id is registered as a
  candidate id like any other (where the chain is not empty and some nonce meets the target),
  and stays a voter id.
\<close>

theorem voter_candidate_namespaces:
  "add_voter E t_tx t_blk (bc\<lparr>candidates := cs\<rparr>) i n
     = map_option (\<lambda>(r, bc'). (r, bc'\<lparr>candidates := cs\<rparr>)) (add_voter E t_tx t_blk bc i n) \<and>
   add_candidate E t_tx t_blk (bc\<lparr>voters := vs\<rparr>) i n
     = map_option (\<lambda>(r, bc'). (r, bc'\<lparr>voters := vs\<rparr>)) (add_candidate E t_tx t_blk bc i n) \<and>
   (add_voter E t_tx t_blk bc i n = Some (r, bc') \<longrightarrow> candidates bc' = candidates bc) \<and>
   (add_candidate E t_tx t_blk bc i n = Some (r, bc') \<longrightarrow> voters bc' = voters bc) \<and>
   (map_of (voters bc) (strip i) = Some v \<and> strip i \<noteq> [] \<and> strip n \<noteq> [] \<and>
    map_of (candidates bc) (strip i) = None \<and> chain bc \<noteq> [] \<and>
    meets_target E
      (unsealed t_blk (int (length (chain bc)))
         [Transaction_add_candidate t_tx \<lparr>candidate_id = strip i, Candidate.name = strip n\<rparr>]
         (hash (last (chain bc))) (Blockchain.difficulty bc) (int k)) \<longrightarrow>
    (\<exists>b. add_candidate E t_tx t_blk bc i n =
           Some (Success,
                 bc\<lparr>candidates := candidates bc @
                        [(strip i, \<lparr>candidate_id = strip i, Candidate.name = strip n\<rparr>)],
                    chain := chain bc @ [b]\<rparr>)))"
proof (intro conjI impI)
  show "add_voter E t_tx t_blk (bc\<lparr>candidates := cs\<rparr>) i n
     = map_option (\<lambda>(r, bc'). (r, bc'\<lparr>candidates := cs\<rparr>)) (add_voter E t_tx t_blk bc i n)"
    by (simp add: add_voter_def add_block_eq Let_def split: option.splits)
  show "add_candidate E t_tx t_blk (bc\<lparr>voters := vs\<rparr>) i n
     = map_option (\<lambda>(r, bc'). (r, bc'\<lparr>voters := vs\<rparr>)) (add_candidate E t_tx t_blk bc i n)"
    by (simp add: add_candidate_def add_block_eq Let_def split: option.splits)
  show "candidates bc' = candidates bc" if "add_voter E t_tx t_blk bc i n = Some (r, bc')"
    using that
    by (auto simp: add_voter_def add_block_eq Let_def split: if_splits option.splits)
  show "voters bc' = voters bc" if "add_candidate E t_tx t_blk bc i n = Some (r, bc')"
    using that
    by (auto simp: add_candidate_def add_block_eq Let_def split: if_splits option.splits)
  show "\<exists>b. add_candidate E t_tx t_blk bc i n =
           Some (Success,
                 bc\<lparr>candidates := candidates bc @
                        [(strip i, \<lparr>candidate_id = strip i, Candidate.name = strip n\<rparr>)],
                    chain := chain bc @ [b]\<rparr>)"
    if h: "map_of (voters bc) (strip i) = Some v \<and> strip i \<noteq> [] \<and> strip n \<noteq> [] \<and>
      map_of (candidates bc) (strip i) = None \<and> chain bc \<noteq> [] \<and>
      meets_target E
        (unsealed t_blk (int (length (chain bc)))
           [Transaction_add_candidate t_tx \<lparr>candidate_id = strip i, Candidate.name = strip n\<rparr>]
           (hash (last (chain bc))) (Blockchain.difficulty bc) (int k))"
    using h add_candidate_succeeds [of i n bc E t_blk t_tx k] by blast
qed

lemma demo_candidate_target:
  "meets_target demo_env
     (unsealed 109 3
        [Transaction_add_candidate 108
           \<lparr>candidate_id = ustr ''V1'', Candidate.name = ustr ''Vera''\<rparr>]
        ''000128'' 3 (int 3))"
  by code_simp

lemma demo_strip_more: "strip (ustr ''Vera'') = ustr ''Vera''"
  by code_simp

theorem voter_candidate_namespaces_witness:
  "map_of (voters demo_registered) (ustr ''V1'')
     = Some \<lparr>voter_id = ustr ''V1'', Voter.name = ustr ''Alice'', has_voted = False\<rparr> \<and>
   map_option fst (add_candidate demo_env 108 109 demo_registered (ustr ''V1'') (ustr ''Vera''))
     = Some Success \<and>
   map_option (voters \<circ> snd)
       (add_candidate demo_env 108 109 demo_registered (ustr ''V1'') (ustr ''Vera''))
     = Some (voters demo_registered)"
proof -
  have voter: "map_of (voters demo_registered) (ustr ''V1'')
     = Some \<lparr>voter_id = ustr ''V1'', Voter.name = ustr ''Alice'', has_voted = False\<rparr>"
    by (simp add: demo_registered_def)
  have rest: "map_of (candidates demo_registered) (ustr ''V1'') = None"
    "chain demo_registered \<noteq> []" "int (length (chain demo_registered)) = 3"
    "hash (last (chain demo_registered)) = ''000128''"
    "Blockchain.difficulty demo_registered = 3"
    by (simp_all add: demo_registered_def demo_block2_def)
  have "\<exists>b. add_candidate demo_env 108 109 demo_registered (ustr ''V1'') (ustr ''Vera'') =
           Some (Success,
                 demo_registered\<lparr>candidates := candidates demo_registered @
                        [(ustr ''V1'', \<lparr>candidate_id = ustr ''V1'', Candidate.name = ustr ''Vera''\<rparr>)],
                    chain := chain demo_registered @ [b]\<rparr>)"
    using voter_candidate_namespaces [where E = demo_env and bc = demo_registered and t_tx = 108
        and t_blk = 109 and i = "ustr ''V1''" and n = "ustr ''Vera''" and k = 3
        and v = "\<lparr>voter_id = ustr ''V1'', Voter.name = ustr ''Alice'', has_voted = False\<rparr>",
        THEN conjunct2, THEN conjunct2, THEN conjunct2, THEN conjunct2]
      voter rest demo_candidate_target
    by (simp add: demo_strip demo_strip_more)
  then show ?thesis using voter by auto
qed

end
